theory Spec2Isabelle
  imports Complex_Main
begin

section \<open>The portfolio weight optimizer of \<open>lib/quantum-optimizer\<close>\<close>

text \<open>
  A shallow embedding of the class \<open>QuantumPortfolioOptimizer\<close>
  (file \<open>src/lib/server-database-operations.ts\<close>, lines 279 to 498).

  Numbers. A JavaScript \<open>number\<close> is modelled by the type \<open>jsnum\<close>: a real number, one
  of the two infinities, or NaN. The special values follow IEEE 754 (\<open>x / 0\<close>,
  \<open>0 / 0\<close>, \<open>Infinity - Infinity\<close>, comparisons with NaN, \<open>Math.max\<close> and
  \<open>Math.min\<close> with NaN). Finite arithmetic is exact: rounding, overflow to an infinity
  and underflow are not modelled. The sign of zero is not modelled either; every divisor
  in the code is a positive constant, a square root or twice one, a square, or a sum that
  starts from the literal \<open>0\<close>, and none of these is ever the negative zero, so
  \<open>x / 0\<close> is the division by the positive zero.

  Exceptions. \<open>throw new Error(...)\<close> at line 462 and the \<open>TypeError\<close> of reading an
  index of \<open>undefined\<close> (\<open>covMatrix[i][j]\<close> with \<open>i\<close> past the last row) are values
  of the type \<open>error\<close>; a function that can throw returns \<open>error + 'a\<close>.

  The loop at line 375 runs while \<open>iteration < this.maxIterations\<close>, and
  \<open>maxIterations\<close> is any number, \<open>Infinity\<close> included: the loop is a partial function.
\<close>

subsection \<open>Numbers\<close>

datatype jsnum = Fin real | PInf | NInf | NaN

fun js_neg :: "jsnum \<Rightarrow> jsnum" where
  "js_neg (Fin a) = Fin (- a)"
| "js_neg PInf = NInf"
| "js_neg NInf = PInf"
| "js_neg NaN = NaN"

fun js_add :: "jsnum \<Rightarrow> jsnum \<Rightarrow> jsnum" where
  "js_add (Fin a) (Fin b) = Fin (a + b)"
| "js_add NaN y = NaN"
| "js_add x NaN = NaN"
| "js_add PInf NInf = NaN"
| "js_add NInf PInf = NaN"
| "js_add PInf y = PInf"
| "js_add x PInf = PInf"
| "js_add NInf y = NInf"
| "js_add x NInf = NInf"

definition js_sub :: "jsnum \<Rightarrow> jsnum \<Rightarrow> jsnum" where
  "js_sub x y = js_add x (js_neg y)"

text \<open>The sign of a number that is not NaN: \<open>-1\<close>, \<open>0\<close> or \<open>1\<close>.\<close>

fun js_sign :: "jsnum \<Rightarrow> real" where
  "js_sign (Fin a) = sgn a"
| "js_sign PInf = 1"
| "js_sign NInf = - 1"
| "js_sign NaN = 0"

definition inf_of_sign :: "real \<Rightarrow> jsnum" where
  "inf_of_sign s = (if s = 0 then NaN else if 0 < s then PInf else NInf)"

fun js_mul :: "jsnum \<Rightarrow> jsnum \<Rightarrow> jsnum" where
  "js_mul (Fin a) (Fin b) = Fin (a * b)"
| "js_mul NaN y = NaN"
| "js_mul x NaN = NaN"
| "js_mul x y = inf_of_sign (js_sign x * js_sign y)"

fun js_div :: "jsnum \<Rightarrow> jsnum \<Rightarrow> jsnum" where
  "js_div (Fin a) (Fin b) = (if b = 0 then inf_of_sign (sgn a) else Fin (a / b))"
| "js_div NaN y = NaN"
| "js_div x NaN = NaN"
| "js_div (Fin a) y = Fin 0"
| "js_div x (Fin b) = (if b = 0 then x else inf_of_sign (js_sign x * sgn b))"
| "js_div x y = NaN"

fun js_sqrt :: "jsnum \<Rightarrow> jsnum" where
  "js_sqrt (Fin a) = (if a < 0 then NaN else Fin (sqrt a))"
| "js_sqrt PInf = PInf"
| "js_sqrt NInf = NaN"
| "js_sqrt NaN = NaN"

text \<open>\<open>Math.pow(x, 2)\<close>.\<close>

fun js_pow2 :: "jsnum \<Rightarrow> jsnum" where
  "js_pow2 (Fin a) = Fin (a\<^sup>2)"
| "js_pow2 PInf = PInf"
| "js_pow2 NInf = PInf"
| "js_pow2 NaN = NaN"

fun js_exp :: "jsnum \<Rightarrow> jsnum" where
  "js_exp (Fin a) = Fin (exp a)"
| "js_exp PInf = PInf"
| "js_exp NInf = Fin 0"
| "js_exp NaN = NaN"

fun js_abs :: "jsnum \<Rightarrow> jsnum" where
  "js_abs (Fin a) = Fin \<bar>a\<bar>"
| "js_abs PInf = PInf"
| "js_abs NInf = PInf"
| "js_abs NaN = NaN"

text \<open>The operator \<open><\<close>: false as soon as one side is NaN.\<close>

fun js_lt :: "jsnum \<Rightarrow> jsnum \<Rightarrow> bool" where
  "js_lt (Fin a) (Fin b) = (a < b)"
| "js_lt NaN y = False"
| "js_lt x NaN = False"
| "js_lt x NInf = False"
| "js_lt PInf y = False"
| "js_lt x y = True"

definition js_max :: "jsnum \<Rightarrow> jsnum \<Rightarrow> jsnum" where
  "js_max x y = (if x = NaN \<or> y = NaN then NaN else if js_lt x y then y else x)"

definition js_min :: "jsnum \<Rightarrow> jsnum \<Rightarrow> jsnum" where
  "js_min x y = (if x = NaN \<or> y = NaN then NaN else if js_lt y x then y else x)"

text \<open>Truthiness of a number: \<open>0\<close> and NaN are falsy.\<close>

fun truthy :: "jsnum \<Rightarrow> bool" where
  "truthy (Fin a) = (a \<noteq> 0)"
| "truthy NaN = False"
| "truthy x = True"

text \<open>
  \<open>xs[i]\<close> on an array of numbers, read into an arithmetic expression: past the end the
  value is \<open>undefined\<close>, which every arithmetic operator turns into NaN.
\<close>

definition js_index :: "jsnum list \<Rightarrow> nat \<Rightarrow> jsnum" where
  "js_index xs i = (if i < length xs then xs ! i else NaN)"

subsection \<open>Data\<close>

record Asset =
  symbol :: string
  name :: string
  expectedReturn :: jsnum
  volatility :: jsnum
  price :: jsnum

record OptimizationResult =
  optimalWeights :: "jsnum list"
  result_expectedReturn :: jsnum
  result_volatility :: jsnum
  result_sharpeRatio :: jsnum
  convergenceData :: "jsnum list"
  iterations :: nat

text \<open>The object returned by \<open>calculatePortfolioMetrics\<close>.\<close>

record PortfolioMetrics =
  metrics_expectedReturn :: jsnum
  metrics_volatility :: jsnum
  metrics_sharpeRatio :: jsnum

text \<open>The parameter \<open>constraints\<close>; both fields are optional.\<close>

record Constraints =
  minWeight :: "jsnum option"
  maxWeight :: "jsnum option"

text \<open>The private fields of the class.\<close>

record QuantumPortfolioOptimizer =
  riskFreeRate :: jsnum
  maxIterations :: jsnum
  tolerance :: jsnum

datatype error = InvalidInput | TypeError

subsection \<open>The constructor\<close>

definition constructor :: "jsnum option \<Rightarrow> jsnum option \<Rightarrow> QuantumPortfolioOptimizer" where
  "constructor rfr mi =
     (let this = \<lparr>riskFreeRate = Fin 0.02, maxIterations = Fin 100, tolerance = Fin 0.000001\<rparr>;
          this = (case rfr of Some r \<Rightarrow> if truthy r then this\<lparr>riskFreeRate := r\<rparr> else this
                  | None \<Rightarrow> this);
          this = (case mi of Some m \<Rightarrow> if truthy m then this\<lparr>maxIterations := m\<rparr> else this
                  | None \<Rightarrow> this)
      in this)"

subsection \<open>Loops that can throw\<close>

fun foldE :: "('b \<Rightarrow> 'a \<Rightarrow> error + 'b) \<Rightarrow> 'b \<Rightarrow> 'a list \<Rightarrow> error + 'b" where
  "foldE f acc [] = Inr acc"
| "foldE f acc (x # xs) = (case f acc x of Inl e \<Rightarrow> Inl e | Inr acc' \<Rightarrow> foldE f acc' xs)"

fun mapE :: "('a \<Rightarrow> error + 'b) \<Rightarrow> 'a list \<Rightarrow> error + 'b list" where
  "mapE f [] = Inr []"
| "mapE f (x # xs) =
     (case f x of Inl e \<Rightarrow> Inl e
      | Inr y \<Rightarrow> (case mapE f xs of Inl e \<Rightarrow> Inl e | Inr ys \<Rightarrow> Inr (y # ys)))"

text \<open>\<open>covMatrix[i][j]\<close>: a missing row throws, a missing column is \<open>undefined\<close>.\<close>

definition cov_entry :: "jsnum list list \<Rightarrow> nat \<Rightarrow> nat \<Rightarrow> error + jsnum" where
  "cov_entry covMatrix i j =
     (if i < length covMatrix then Inr (js_index (covMatrix ! i) j) else Inl TypeError)"

subsection \<open>calculateCovarianceMatrix (lines 321 to 340)\<close>

definition calculateCovarianceMatrix :: "Asset list \<Rightarrow> jsnum list list" where
  "calculateCovarianceMatrix assets =
     (let n = length assets in
      map (\<lambda>i. map (\<lambda>j.
             if i = j then js_pow2 (volatility (assets ! i))
             else js_mul (js_mul (Fin 0.3) (volatility (assets ! i))) (volatility (assets ! j)))
           [0..<n])
        [0..<n])"

subsection \<open>Portfolio return and variance\<close>

text \<open>
  \<open>weights.reduce((sum, w, i) => sum + w * expectedReturns[i], 0)\<close>, at lines 344,
  402, 427 and 480.
\<close>

definition portfolioReturn :: "jsnum list \<Rightarrow> jsnum list \<Rightarrow> jsnum" where
  "portfolioReturn weights expectedReturns =
     foldl (\<lambda>sum i. js_add sum (js_mul (weights ! i) (js_index expectedReturns i)))
       (Fin 0) [0..<length weights]"

text \<open>
  The double loop \<open>portfolioVariance += weights[i] * weights[j] * covMatrix[i][j]\<close>,
  written out at lines 346, 403, 428 and 482.
\<close>

definition portfolioVariance :: "jsnum list \<Rightarrow> jsnum list list \<Rightarrow> error + jsnum" where
  "portfolioVariance weights covMatrix =
     foldE (\<lambda>acc i.
        foldE (\<lambda>acc j.
           case cov_entry covMatrix i j of
             Inl e \<Rightarrow> Inl e
           | Inr c \<Rightarrow> Inr (js_add acc (js_mul (js_mul (weights ! i) (weights ! j)) c)))
          acc [0..<length weights])
       (Fin 0) [0..<length weights]"

subsection \<open>objectiveFunction (lines 343 to 357)\<close>

definition objectiveFunction ::
  "QuantumPortfolioOptimizer \<Rightarrow> jsnum list \<Rightarrow> jsnum list \<Rightarrow> jsnum list list \<Rightarrow> error + jsnum" where
  "objectiveFunction this weights expectedReturns covMatrix =
     (let pReturn = portfolioReturn weights expectedReturns in
      case portfolioVariance weights covMatrix of
        Inl e \<Rightarrow> Inl e
      | Inr pVariance \<Rightarrow>
          let pVolatility = js_sqrt pVariance;
              sharpeRatio = js_div (js_sub pReturn (riskFreeRate this)) pVolatility
          in Inr (js_neg sharpeRatio))"

subsection \<open>calculateGradients (lines 423 to 454)\<close>

definition varianceGradient :: "jsnum list \<Rightarrow> jsnum list list \<Rightarrow> nat \<Rightarrow> error + jsnum" where
  "varianceGradient weights covMatrix i =
     foldE (\<lambda>acc j.
        case cov_entry covMatrix i j of
          Inl e \<Rightarrow> Inl e
        | Inr c \<Rightarrow> Inr (js_add acc (js_mul (js_mul (Fin 2) (weights ! j)) c)))
       (Fin 0) [0..<length weights]"

definition calculateGradients ::
  "QuantumPortfolioOptimizer \<Rightarrow> jsnum list \<Rightarrow> jsnum list \<Rightarrow> jsnum list list \<Rightarrow> error + jsnum list" where
  "calculateGradients this weights expectedReturns covMatrix =
     (let pReturn = portfolioReturn weights expectedReturns in
      case portfolioVariance weights covMatrix of
        Inl e \<Rightarrow> Inl e
      | Inr pVariance \<Rightarrow>
          let pVolatility = js_sqrt pVariance in
          mapE (\<lambda>i.
             let returnGradient = js_index expectedReturns i in
             case varianceGradient weights covMatrix i of
               Inl e \<Rightarrow> Inl e
             | Inr vGradient \<Rightarrow>
                 let volatilityGradient = js_div vGradient (js_mul (Fin 2) pVolatility);
                     numerator = js_sub (js_mul returnGradient pVolatility)
                                   (js_mul (js_sub pReturn (riskFreeRate this)) volatilityGradient);
                     denominator = js_pow2 pVolatility
                 in Inr (js_div (js_neg numerator) denominator))
            [0..<length weights])"

subsection \<open>quantumOptimization (lines 360 to 420)\<close>

text \<open>\<open>value || dflt\<close> on an optional field.\<close>

definition or_default :: "jsnum option \<Rightarrow> jsnum \<Rightarrow> jsnum" where
  "or_default v dflt = (case v of Some x \<Rightarrow> if truthy x then x else dflt | None \<Rightarrow> dflt)"

text \<open>Lines 380 to 392: the weights after one update, given the gradients.\<close>

definition learningRate :: "nat \<Rightarrow> jsnum" where
  "learningRate iteration =
     js_mul (Fin 0.01) (js_exp (js_div (js_neg (Fin (real iteration))) (Fin 50)))"

definition updateWeights :: "jsnum \<Rightarrow> jsnum \<Rightarrow> nat \<Rightarrow> jsnum list \<Rightarrow> jsnum list \<Rightarrow> jsnum list" where
  "updateWeights minW maxW iteration weights gradients =
     (let newWeights =
            map (\<lambda>i. let gradient = js_index gradients i;
                         update = js_sub (weights ! i) (js_mul (learningRate iteration) gradient)
                     in js_max minW (js_min maxW update))
              [0..<length weights];
          sum = foldl js_add (Fin 0) newWeights
      in map (\<lambda>w. js_div w sum) newWeights)"

text \<open>
  One pass of the loop body, lines 376 to 398: the objective at the start of the pass,
  the weights at its end, and whether the pass ends with \<open>break\<close>.
\<close>

definition loopPass ::
  "QuantumPortfolioOptimizer \<Rightarrow> jsnum list \<Rightarrow> jsnum list list \<Rightarrow> jsnum \<Rightarrow> jsnum \<Rightarrow> nat \<Rightarrow>
   jsnum list \<Rightarrow> error + (jsnum \<times> jsnum list \<times> bool)" where
  "loopPass this expectedReturns covMatrix minW maxW iteration weights =
     (case objectiveFunction this weights expectedReturns covMatrix of
        Inl e \<Rightarrow> Inl e
      | Inr currentObjective \<Rightarrow>
          (case calculateGradients this weights expectedReturns covMatrix of
             Inl e \<Rightarrow> Inl e
           | Inr gradients \<Rightarrow>
               let weights' = updateWeights minW maxW iteration weights gradients in
               (case objectiveFunction this weights' expectedReturns covMatrix of
                  Inl e \<Rightarrow> Inl e
                | Inr newObjective \<Rightarrow>
                    Inr (currentObjective, weights',
                         js_lt (js_abs (js_sub newObjective currentObjective)) (tolerance this)))))"

text \<open>
  The \<open>for\<close> loop of line 375. The result is the pair of the final weights and the
  recorded \<open>convergenceData\<close>; \<open>None\<close> stands for a loop that never ends.
\<close>

partial_function (option) optimizationLoop ::
  "QuantumPortfolioOptimizer \<Rightarrow> jsnum list \<Rightarrow> jsnum list list \<Rightarrow> jsnum \<Rightarrow> jsnum \<Rightarrow> nat \<Rightarrow>
   jsnum list \<Rightarrow> jsnum list \<Rightarrow> (error + jsnum list \<times> jsnum list) option" where
  "optimizationLoop this expectedReturns covMatrix minW maxW iteration weights convergence =
     (if js_lt (Fin (real iteration)) (maxIterations this) then
        (case loopPass this expectedReturns covMatrix minW maxW iteration weights of
           Inl e \<Rightarrow> Some (Inl e)
         | Inr (currentObjective, weights', stop) \<Rightarrow>
             if stop then Some (Inr (weights', convergence @ [js_neg currentObjective]))
             else optimizationLoop this expectedReturns covMatrix minW maxW (Suc iteration)
                    weights' (convergence @ [js_neg currentObjective]))
      else Some (Inr (weights, convergence)))"

text \<open>Lines 401 to 419: the final metrics and the returned object.\<close>

definition finalResult ::
  "QuantumPortfolioOptimizer \<Rightarrow> jsnum list \<Rightarrow> jsnum list list \<Rightarrow> jsnum list \<Rightarrow> jsnum list \<Rightarrow>
   error + OptimizationResult" where
  "finalResult this expectedReturns covMatrix weights convergence =
     (let pReturn = portfolioReturn weights expectedReturns in
      case portfolioVariance weights covMatrix of
        Inl e \<Rightarrow> Inl e
      | Inr pVariance \<Rightarrow>
          let pVolatility = js_sqrt pVariance;
              sharpeRatio = js_div (js_sub pReturn (riskFreeRate this)) pVolatility
          in Inr \<lparr>optimalWeights = weights,
                  result_expectedReturn = pReturn,
                  result_volatility = pVolatility,
                  result_sharpeRatio = sharpeRatio,
                  convergenceData = convergence,
                  iterations = length convergence\<rparr>)"

definition quantumOptimization ::
  "QuantumPortfolioOptimizer \<Rightarrow> Asset list \<Rightarrow> Constraints option \<Rightarrow>
   (error + OptimizationResult) option" where
  "quantumOptimization this assets constraints =
     (let cs = (case constraints of Some c \<Rightarrow> c | None \<Rightarrow> \<lparr>minWeight = None, maxWeight = None\<rparr>);
          n = length assets;
          expectedReturns = map expectedReturn assets;
          covMatrix = calculateCovarianceMatrix assets;
          weights = replicate n (js_div (Fin 1) (Fin (real n)));
          minW = or_default (minWeight cs) (Fin 0);
          maxW = or_default (maxWeight cs) (Fin 1)
      in case optimizationLoop this expectedReturns covMatrix minW maxW 0 weights [] of
           None \<Rightarrow> None
         | Some (Inl e) \<Rightarrow> Some (Inl e)
         | Some (Inr (weights', convergence)) \<Rightarrow>
             Some (finalResult this expectedReturns covMatrix weights' convergence))"

subsection \<open>optimizePortfolio (lines 457 to 466)\<close>

definition optimizePortfolio ::
  "QuantumPortfolioOptimizer \<Rightarrow> Asset list \<Rightarrow> Constraints option \<Rightarrow>
   (error + OptimizationResult) option" where
  "optimizePortfolio this assets constraints =
     (if length assets < 2 then Some (Inl InvalidInput)
      else quantumOptimization this assets constraints)"

subsection \<open>calculatePortfolioMetrics (lines 469 to 497)\<close>

definition calculatePortfolioMetrics ::
  "QuantumPortfolioOptimizer \<Rightarrow> Asset list \<Rightarrow> jsnum list \<Rightarrow> error + PortfolioMetrics" where
  "calculatePortfolioMetrics this assets weights =
     (let expectedReturns = map expectedReturn assets;
          covMatrix = calculateCovarianceMatrix assets;
          pReturn = portfolioReturn weights expectedReturns
      in case portfolioVariance weights covMatrix of
           Inl e \<Rightarrow> Inl e
         | Inr pVariance \<Rightarrow>
             let pVolatility = js_sqrt pVariance;
                 sharpeRatio = js_div (js_sub pReturn (riskFreeRate this)) pVolatility
             in Inr \<lparr>metrics_expectedReturn = pReturn,
                     metrics_volatility = pVolatility,
                     metrics_sharpeRatio = sharpeRatio\<rparr>)"

section \<open>Auxiliary definitions\<close>

subsection \<open>The trajectory of the weights\<close>

text \<open>
  The weights at the start of pass \<open>k\<close> of the loop, from the initial weights \<open>w0\<close>:
  each pass replaces the weights by \<open>updateWeights\<close> of the gradients at the current
  weights (lines 381 to 392). Where \<open>calculateGradients\<close> throws, the loop has ended with
  the exception and the weights stay.
\<close>

fun weightsAt ::
  "QuantumPortfolioOptimizer \<Rightarrow> jsnum list \<Rightarrow> jsnum list list \<Rightarrow> jsnum \<Rightarrow> jsnum \<Rightarrow>
   jsnum list \<Rightarrow> nat \<Rightarrow> jsnum list" where
  "weightsAt this expectedReturns covMatrix minW maxW w0 0 = w0"
| "weightsAt this expectedReturns covMatrix minW maxW w0 (Suc k) =
     (let weights = weightsAt this expectedReturns covMatrix minW maxW w0 k in
      case calculateGradients this weights expectedReturns covMatrix of
        Inl e \<Rightarrow> weights
      | Inr gradients \<Rightarrow> updateWeights minW maxW k weights gradients)"

text \<open>Whether pass \<open>k\<close> ends with the \<open>break\<close> of line 397.\<close>

definition passStops ::
  "QuantumPortfolioOptimizer \<Rightarrow> jsnum list \<Rightarrow> jsnum list list \<Rightarrow> jsnum \<Rightarrow> jsnum \<Rightarrow>
   jsnum list \<Rightarrow> nat \<Rightarrow> bool" where
  "passStops this expectedReturns covMatrix minW maxW w0 k =
     (case loopPass this expectedReturns covMatrix minW maxW k
             (weightsAt this expectedReturns covMatrix minW maxW w0 k) of
        Inl e \<Rightarrow> False
      | Inr (currentObjective, weights', stop) \<Rightarrow> stop)"

text \<open>
  What a returned value \<open>y\<close> of the loop started at pass \<open>it\<close> satisfies: it is the
  state after some pass \<open>m\<close>, every pass before \<open>m\<close> was below \<open>maxIterations\<close> and
  recorded its negated objective, no pass before the last one stopped, and the loop ended
  by its condition or by \<open>break\<close>.
\<close>

definition loopPost ::
  "QuantumPortfolioOptimizer \<Rightarrow> jsnum list \<Rightarrow> jsnum list list \<Rightarrow> jsnum \<Rightarrow> jsnum \<Rightarrow> nat \<Rightarrow>
   jsnum list \<Rightarrow> jsnum list \<Rightarrow> error + jsnum list \<times> jsnum list \<Rightarrow> bool" where
  "loopPost this er cov lo hi it ws conv y =
    (\<forall>w0. length w0 \<le> length cov \<and> ws = weightsAt this er cov lo hi w0 it \<longrightarrow>
     (\<exists>m tr. it \<le> m \<and> y = Inr (weightsAt this er cov lo hi w0 m, conv @ tr) \<and>
        length tr = m - it \<and>
        (\<forall>k. it \<le> k \<and> k < m \<longrightarrow>
           js_lt (Fin (real k)) (maxIterations this) \<and>
           (\<exists>obj. objectiveFunction this (weightsAt this er cov lo hi w0 k) er cov = Inr obj \<and>
                  tr ! (k - it) = js_neg obj) \<and>
           (Suc k < m \<longrightarrow> \<not> passStops this er cov lo hi w0 k)) \<and>
        (\<not> js_lt (Fin (real m)) (maxIterations this) \<or>
         (it < m \<and> passStops this er cov lo hi w0 (m - 1)))))"

text \<open>The bounds after defaulting (lines 372 and 373).\<close>

definition lowerBound :: "Constraints option \<Rightarrow> jsnum" where
  "lowerBound constraints =
     or_default (minWeight (case constraints of Some c \<Rightarrow> c
                            | None \<Rightarrow> \<lparr>minWeight = None, maxWeight = None\<rparr>)) (Fin 0)"

definition upperBound :: "Constraints option \<Rightarrow> jsnum" where
  "upperBound constraints =
     or_default (maxWeight (case constraints of Some c \<Rightarrow> c
                            | None \<Rightarrow> \<lparr>minWeight = None, maxWeight = None\<rparr>)) (Fin 1)"

text \<open>
  The same notions for a call \<open>optimizePortfolio(assets, constraints)\<close>, which starts the
  loop from the uniform weights \<open>1 / n\<close> with the bounds after defaulting: the weights at
  the start of pass \<open>k\<close>, the objective there, and whether pass \<open>k\<close> ends with \<open>break\<close>.
\<close>

definition passWeights ::
  "QuantumPortfolioOptimizer \<Rightarrow> Asset list \<Rightarrow> Constraints option \<Rightarrow> nat \<Rightarrow> jsnum list" where
  "passWeights this assets constraints k =
     weightsAt this (map expectedReturn assets) (calculateCovarianceMatrix assets)
       (lowerBound constraints) (upperBound constraints)
       (replicate (length assets) (js_div (Fin 1) (Fin (real (length assets))))) k"

definition passObjective ::
  "QuantumPortfolioOptimizer \<Rightarrow> Asset list \<Rightarrow> Constraints option \<Rightarrow> nat \<Rightarrow> error + jsnum" where
  "passObjective this assets constraints k =
     objectiveFunction this (passWeights this assets constraints k)
       (map expectedReturn assets) (calculateCovarianceMatrix assets)"

definition passBreaks ::
  "QuantumPortfolioOptimizer \<Rightarrow> Asset list \<Rightarrow> Constraints option \<Rightarrow> nat \<Rightarrow> bool" where
  "passBreaks this assets constraints k =
     passStops this (map expectedReturn assets) (calculateCovarianceMatrix assets)
       (lowerBound constraints) (upperBound constraints)
       (replicate (length assets) (js_div (Fin 1) (Fin (real (length assets))))) k"

subsection \<open>The formulas of the specification, over the reals\<close>

text \<open>The covariance matrix as the specification writes it, for real volatilities.\<close>

definition spec_covariance :: "real list \<Rightarrow> real list list" where
  "spec_covariance vs =
     map (\<lambda>i. map (\<lambda>j. if i = j then (vs ! i)\<^sup>2 else 0.3 * vs ! i * vs ! j) [0..<length vs])
       [0..<length vs]"

text \<open>
  Portfolio return, variance, volatility and Sharpe ratio, the derivative of the
  volatility and the gradient of the negated Sharpe ratio as the specification writes
  them, for real weights \<open>w\<close>, returns \<open>r\<close> and covariances \<open>c\<close>.
\<close>

definition spec_return :: "real list \<Rightarrow> real list \<Rightarrow> real" where
  "spec_return w r = (\<Sum>i<length w. w ! i * r ! i)"

definition spec_variance :: "real list \<Rightarrow> real list list \<Rightarrow> real" where
  "spec_variance w c = (\<Sum>i<length w. \<Sum>j<length w. w ! i * w ! j * c ! i ! j)"

definition spec_volatility :: "real list \<Rightarrow> real list list \<Rightarrow> real" where
  "spec_volatility w c = sqrt (spec_variance w c)"

definition spec_sharpe :: "real \<Rightarrow> real list \<Rightarrow> real list \<Rightarrow> real list list \<Rightarrow> real" where
  "spec_sharpe rf w r c = (spec_return w r - rf) / spec_volatility w c"

definition spec_dvolatility :: "real list \<Rightarrow> real list list \<Rightarrow> nat \<Rightarrow> real" where
  "spec_dvolatility w c i = (2 * (\<Sum>j<length w. w ! j * c ! i ! j)) / (2 * spec_volatility w c)"

definition spec_gradient :: "real \<Rightarrow> real list \<Rightarrow> real list \<Rightarrow> real list list \<Rightarrow> nat \<Rightarrow> real" where
  "spec_gradient rf w r c i =
     - ((r ! i * spec_volatility w c - (spec_return w r - rf) * spec_dvolatility w c i)
        / (spec_volatility w c)\<^sup>2)"

text \<open>The update of one iteration as the specification writes it.\<close>

definition spec_learningRate :: "nat \<Rightarrow> real" where
  "spec_learningRate iteration = 0.01 * exp (- real iteration / 50)"

definition spec_clip :: "real \<Rightarrow> real \<Rightarrow> real \<Rightarrow> real" where
  "spec_clip x lo hi = max lo (min hi x)"

definition spec_candidates :: "real \<Rightarrow> real \<Rightarrow> nat \<Rightarrow> real list \<Rightarrow> real list \<Rightarrow> real list" where
  "spec_candidates lo hi iteration w g =
     map (\<lambda>i. spec_clip (w ! i - spec_learningRate iteration * g ! i) lo hi) [0..<length w]"

definition spec_update :: "real \<Rightarrow> real \<Rightarrow> nat \<Rightarrow> real list \<Rightarrow> real list \<Rightarrow> real list" where
  "spec_update lo hi iteration w g =
     (let candidate = spec_candidates lo hi iteration w g
      in map (\<lambda>x. x / sum_list candidate) candidate)"


subsection \<open>Example inputs\<close>

text \<open>
  Two assets whose uniform portfolio has the variance \<open>0.009025 = 0.095\<^sup>2\<close>, and bounds
  \<open>[0.1, 0.3]\<close>.
\<close>

definition cappedAssets :: "Asset list" where
  "cappedAssets =
     [\<lparr>symbol = ''AAA'', name = ''First'', expectedReturn = Fin 0.12, volatility = Fin 0.15,
       price = Fin 100\<rparr>,
      \<lparr>symbol = ''BBB'', name = ''Second'', expectedReturn = Fin 0.08, volatility = Fin 0.08,
       price = Fin 50\<rparr>]"

definition cappedConstraints :: "Constraints option" where
  "cappedConstraints = Some \<lparr>minWeight = Some (Fin 0.1), maxWeight = Some (Fin 0.3)\<rparr>"

text \<open>The same returns and volatilities under other symbols, names and prices.\<close>

definition relabelledAssets :: "Asset list" where
  "relabelledAssets = map (\<lambda>a. a\<lparr>symbol := ''ZZZ'', name := ''Other'', price := Fin 1\<rparr>) cappedAssets"


text \<open>
  Two assets with small volatilities and far apart returns, bounds \<open>[0.2, 0.6]\<close>, and the
  covariance matrix of the two assets.
\<close>

definition spreadAssets :: "Asset list" where
  "spreadAssets =
     [\<lparr>symbol = ''AAA'', name = ''First'', expectedReturn = Fin 0.3, volatility = Fin 0.0015,
       price = Fin 100\<rparr>,
      \<lparr>symbol = ''BBB'', name = ''Second'', expectedReturn = Fin 0.01, volatility = Fin 0.0008,
       price = Fin 50\<rparr>]"

definition spreadConstraints :: "Constraints option" where
  "spreadConstraints = Some \<lparr>minWeight = Some (Fin 0.2), maxWeight = Some (Fin 0.6)\<rparr>"

definition spreadCovariance :: "real list list" where
  "spreadCovariance = [[9/4000000, 9/25000000], [9/25000000, 1/1562500]]"

section \<open>Properties\<close>

subsection \<open>Numbers\<close>


lemma js_neg_eq_Fin_iff: "(js_neg x = Fin a) = (x = Fin (- a))" "(Fin a = js_neg x) = (x = Fin (- a))"
  by (cases x; auto)+

lemma js_lt_index_mono: "j \<le> k \<Longrightarrow> js_lt (Fin (real k)) M \<Longrightarrow> js_lt (Fin (real j)) M"
  by (cases M) simp_all

lemma js_add_NaN_right [simp]: "js_add x NaN = NaN"
  by (cases x) simp_all

lemma js_mul_NaN_right [simp]: "js_mul x NaN = NaN"
  by (cases x) simp_all

lemma js_div_NaN_right [simp]: "js_div x NaN = NaN"
  by (cases x) simp_all

lemma js_sub_NaN [simp]: "js_sub x NaN = NaN" "js_sub NaN y = NaN"
  by (simp_all add: js_sub_def)

lemma clip_NaN [simp]: "js_max lo (js_min hi NaN) = NaN"
  by (simp add: js_max_def js_min_def)



lemma js_index_replicate_NaN [simp]: "js_index (replicate n NaN) i = NaN"
  by (simp add: js_index_def)

subsection \<open>Loops that can throw\<close>

lemma foldE_append:
  "foldE f acc (xs @ ys) = (case foldE f acc xs of Inl e \<Rightarrow> Inl e | Inr acc' \<Rightarrow> foldE f acc' ys)"
  by (induction xs arbitrary: acc) (auto split: sum.splits)

lemma foldE_returns:
  "(\<And>acc x. x \<in> set xs \<Longrightarrow> \<exists>v. f acc x = Inr v) \<Longrightarrow> \<exists>v. foldE f acc xs = Inr v"
proof (induction xs arbitrary: acc)
  case Nil
  show ?case by simp
next
  case (Cons x xs)
  from Cons.prems obtain v where "f acc x = Inr v" by force
  moreover from Cons have "\<exists>u. foldE f v xs = Inr u" by simp
  ultimately show ?case by simp
qed


lemma mapE_total:
  "(\<And>x. x \<in> set xs \<Longrightarrow> f x = Inr (g x)) \<Longrightarrow> mapE f xs = Inr (map g xs)"
  by (induction xs) simp_all

lemma mapE_returns:
  "(\<And>x. x \<in> set xs \<Longrightarrow> \<exists>v. f x = Inr v) \<Longrightarrow> \<exists>vs. mapE f xs = Inr vs \<and> length vs = length xs"
proof (induction xs)
  case Nil
  show ?case by simp
next
  case (Cons x xs)
  from Cons.prems obtain v where "f x = Inr v" by force
  moreover from Cons obtain vs where "mapE f xs = Inr vs" "length vs = length xs" by auto
  ultimately show ?case by simp
qed

subsection \<open>The covariance matrix\<close>

lemma length_calculateCovarianceMatrix [simp]:
  "length (calculateCovarianceMatrix assets) = length assets"
  by (simp add: calculateCovarianceMatrix_def Let_def)


lemma calculateCovarianceMatrix_cong:
  assumes "map volatility assets = map volatility assets'"
  shows "calculateCovarianceMatrix assets = calculateCovarianceMatrix assets'"
proof -
  from assms have len: "length assets = length assets'" by (rule map_eq_imp_length_eq)
  have vol: "volatility (assets ! i) = volatility (assets' ! i)" if "i < length assets" for i
  proof -
    have "map volatility assets ! i = map volatility assets' ! i" using assms by simp
    with that len show ?thesis by simp
  qed
  show ?thesis
    unfolding calculateCovarianceMatrix_def Let_def len [symmetric]
    by (intro map_cong refl) (simp add: vol)
qed


lemma length_spec_covariance [simp]: "length (spec_covariance vs) = length vs"
  by (simp add: spec_covariance_def)





subsection \<open>No exception when every weight has a row\<close>

lemma cov_entry_row: "i < length covMatrix \<Longrightarrow> cov_entry covMatrix i j = Inr (js_index (covMatrix ! i) j)"
  by (simp add: cov_entry_def)

lemma portfolioVariance_returns:
  assumes "length weights \<le> length covMatrix"
  shows "\<exists>v. portfolioVariance weights covMatrix = Inr v"
  unfolding portfolioVariance_def
  by (rule foldE_returns, rule foldE_returns) (use assms in \<open>simp add: cov_entry_row\<close>)

lemma portfolioVariance_throws:
  assumes "length covMatrix < length weights"
  shows "portfolioVariance weights covMatrix = Inl TypeError"
proof -
  let ?n = "length weights" and ?m = "length covMatrix"
  let ?inner = "\<lambda>acc i.
        foldE (\<lambda>acc j.
           case cov_entry covMatrix i j of
             Inl e \<Rightarrow> Inl e
           | Inr c \<Rightarrow> Inr (js_add acc (js_mul (js_mul (weights ! i) (weights ! j)) c)))
          acc [0..<?n]"
  have split: "[0..<?n] = [0..<?m] @ ?m # [Suc ?m..<?n]"
    using assms by (metis less_imp_le_nat upt_add_eq_append upt_conv_Cons le0 le_add_diff_inverse add_0)
  have "\<exists>v. foldE ?inner (Fin 0) [0..<?m] = Inr v"
    by (rule foldE_returns, rule foldE_returns) (simp add: cov_entry_row)
  then obtain v where v: "foldE ?inner (Fin 0) [0..<?m] = Inr v" by blast
  have "[0..<?n] = 0 # [Suc 0..<?n]" using assms by (intro upt_conv_Cons) auto
  then have "?inner acc ?m = Inl TypeError" for acc
    by (simp add: cov_entry_def)
  then have "foldE ?inner (Fin 0) ([0..<?m] @ ?m # [Suc ?m..<?n]) = Inl TypeError"
    by (simp add: foldE_append v)
  then show ?thesis
    unfolding portfolioVariance_def using split by simp
qed

lemma varianceGradient_returns:
  assumes "i < length covMatrix"
  shows "\<exists>v. varianceGradient weights covMatrix i = Inr v"
  unfolding varianceGradient_def
  by (rule foldE_returns) (use assms in \<open>simp add: cov_entry_row\<close>)

lemma objectiveFunction_returns:
  assumes "length weights \<le> length covMatrix"
  shows "\<exists>v. objectiveFunction this weights expectedReturns covMatrix = Inr v"
  using portfolioVariance_returns [OF assms]
  by (auto simp: objectiveFunction_def Let_def)

lemma calculateGradients_returns:
  assumes "length weights \<le> length covMatrix"
  shows "\<exists>g. calculateGradients this weights expectedReturns covMatrix = Inr g \<and>
             length g = length weights"
proof -
  from portfolioVariance_returns [OF assms] obtain v
    where v: "portfolioVariance weights covMatrix = Inr v" by blast
  have "\<exists>g. mapE (\<lambda>i.
             let returnGradient = js_index expectedReturns i in
             case varianceGradient weights covMatrix i of
               Inl e \<Rightarrow> Inl e
             | Inr vGradient \<Rightarrow>
                 let volatilityGradient = js_div vGradient (js_mul (Fin 2) (js_sqrt v));
                     numerator = js_sub (js_mul returnGradient (js_sqrt v))
                                   (js_mul (js_sub (portfolioReturn weights expectedReturns) (riskFreeRate this)) volatilityGradient);
                     denominator = js_pow2 (js_sqrt v)
                 in Inr (js_div (js_neg numerator) denominator))
            [0..<length weights] = Inr g \<and> length g = length [0..<length weights]"
  proof (rule mapE_returns)
    fix i assume "i \<in> set [0..<length weights]"
    then have "i < length covMatrix" using assms by simp
    from varianceGradient_returns [OF this, of weights]
    show "\<exists>v'. (let returnGradient = js_index expectedReturns i in
             case varianceGradient weights covMatrix i of
               Inl e \<Rightarrow> Inl e
             | Inr vGradient \<Rightarrow>
                 let volatilityGradient = js_div vGradient (js_mul (Fin 2) (js_sqrt v));
                     numerator = js_sub (js_mul returnGradient (js_sqrt v))
                                   (js_mul (js_sub (portfolioReturn weights expectedReturns) (riskFreeRate this)) volatilityGradient);
                     denominator = js_pow2 (js_sqrt v)
                 in Inr (js_div (js_neg numerator) denominator)) = Inr v'"
      by (auto simp: Let_def)
  qed
  then show ?thesis by (simp add: calculateGradients_def v Let_def)
qed

lemma length_updateWeights [simp]:
  "length (updateWeights minW maxW iteration weights gradients) = length weights"
  by (simp add: updateWeights_def Let_def)

lemma loopPass_returns:
  assumes "length weights \<le> length covMatrix"
  shows "\<exists>cur new g.
           objectiveFunction this weights expectedReturns covMatrix = Inr cur \<and>
           calculateGradients this weights expectedReturns covMatrix = Inr g \<and>
           objectiveFunction this (updateWeights minW maxW iteration weights g)
             expectedReturns covMatrix = Inr new \<and>
           loopPass this expectedReturns covMatrix minW maxW iteration weights =
             Inr (cur, updateWeights minW maxW iteration weights g,
                  js_lt (js_abs (js_sub new cur)) (tolerance this))"
proof -
  from objectiveFunction_returns [OF assms] obtain cur
    where c: "objectiveFunction this weights expectedReturns covMatrix = Inr cur" by blast
  from calculateGradients_returns [OF assms] obtain g
    where g: "calculateGradients this weights expectedReturns covMatrix = Inr g" by blast
  have "length (updateWeights minW maxW iteration weights g) \<le> length covMatrix"
    using assms by simp
  from objectiveFunction_returns [OF this] obtain new
    where n: "objectiveFunction this (updateWeights minW maxW iteration weights g)
                expectedReturns covMatrix = Inr new" by blast
  show ?thesis using c g n by (simp add: loopPass_def Let_def)
qed

lemma finalResult_returns:
  assumes "length weights \<le> length covMatrix"
  shows "\<exists>r. finalResult this expectedReturns covMatrix weights convergence = Inr r \<and>
             optimalWeights r = weights \<and> convergenceData r = convergence \<and>
             iterations r = length convergence"
  using portfolioVariance_returns [OF assms]
  by (auto simp: finalResult_def Let_def)

lemma length_weightsAt [simp]:
  "length (weightsAt this expectedReturns covMatrix minW maxW w0 k) = length w0"
  by (induction k) (simp_all add: Let_def split: sum.splits)

lemma length_passWeights [simp]: "length (passWeights this assets constraints k) = length assets"
  by (simp add: passWeights_def Let_def)


subsection \<open>The loop\<close>


lemma optimizationLoop_break:
  "js_lt (Fin (real it)) (maxIterations this) \<Longrightarrow>
   loopPass this er cov lo hi it ws = Inr (cur, ws', True) \<Longrightarrow>
   optimizationLoop this er cov lo hi it ws conv = Some (Inr (ws', conv @ [js_neg cur]))"
  by (subst optimizationLoop.simps) simp

lemma optimizationLoop_continue:
  "js_lt (Fin (real it)) (maxIterations this) \<Longrightarrow>
   loopPass this er cov lo hi it ws = Inr (cur, ws', False) \<Longrightarrow>
   optimizationLoop this er cov lo hi it ws conv =
     optimizationLoop this er cov lo hi (Suc it) ws' (conv @ [js_neg cur])"
  by (subst optimizationLoop.simps) simp

lemma optimizationLoop_terminates:
  assumes "maxIterations this \<noteq> PInf"
  shows "\<exists>y. optimizationLoop this expectedReturns covMatrix minW maxW iteration weights convergence = Some y"
proof (cases "maxIterations this")
  case (Fin M)
  show ?thesis
  proof (induction "nat \<lceil>M\<rceil> - iteration" arbitrary: iteration weights convergence rule: less_induct)
    case less
    show ?case
    proof (cases "real iteration < M")
      case False
      then show ?thesis by (subst optimizationLoop.simps) (simp add: Fin)
    next
      case True
      then have "nat \<lceil>M\<rceil> - Suc iteration < nat \<lceil>M\<rceil> - iteration" by linarith
      from less [OF this] True show ?thesis
        by (subst optimizationLoop.simps) (auto simp: Fin split: sum.splits)
    qed
  qed
next
  case PInf
  with assms show ?thesis by simp
next
  case NInf
  then show ?thesis by (subst optimizationLoop.simps) simp
next
  case NaN
  then show ?thesis by (subst optimizationLoop.simps) simp
qed

lemma optimizationLoop_result:
  assumes "optimizationLoop this0 er0 cov0 lo0 hi0 it0 ws0 conv0 = Some y0"
  shows "loopPost this0 er0 cov0 lo0 hi0 it0 ws0 conv0 y0"
proof (rule optimizationLoop.raw_induct [where P = loopPost, OF _ assms])
  fix loop this er cov lo hi it ws conv y
  assume IH: "\<And>this er cov lo hi it ws conv y.
                 loop this er cov lo hi it ws conv = Some y \<Longrightarrow>
                 loopPost this er cov lo hi it ws conv y"
    and body: "(if js_lt (Fin (real it)) (maxIterations this)
      then case loopPass this er cov lo hi it ws of
           Inl e \<Rightarrow> Some (Inl e)
           | Inr (currentObjective, weights', stop) \<Rightarrow>
               if stop
               then Some (Inr (weights', conv @ [js_neg currentObjective]))
               else loop this er cov lo hi (Suc it) weights'
                     (conv @ [js_neg currentObjective])
      else Some (Inr (ws, conv))) = Some y"
  show "loopPost this er cov lo hi it ws conv y"
    unfolding loopPost_def
  proof (intro allI impI, elim conjE)
    fix w0
    assume len: "length w0 \<le> length cov" and ws: "ws = weightsAt this er cov lo hi w0 it"
    let ?W = "weightsAt this er cov lo hi w0"
    show "\<exists>m tr. it \<le> m \<and> y = Inr (?W m, conv @ tr) \<and> length tr = m - it \<and>
        (\<forall>k. it \<le> k \<and> k < m \<longrightarrow>
           js_lt (Fin (real k)) (maxIterations this) \<and>
           (\<exists>obj. objectiveFunction this (?W k) er cov = Inr obj \<and> tr ! (k - it) = js_neg obj) \<and>
           (Suc k < m \<longrightarrow> \<not> passStops this er cov lo hi w0 k)) \<and>
        (\<not> js_lt (Fin (real m)) (maxIterations this) \<or>
         (it < m \<and> passStops this er cov lo hi w0 (m - 1)))"
    proof (cases "js_lt (Fin (real it)) (maxIterations this)")
      case False
      with body have "y = Inr (?W it, conv @ [])" by (simp add: ws)
      with False show ?thesis by (intro exI [of _ it] exI [of _ "[]"]) auto
    next
      case True
      have "length (?W it) \<le> length cov" using len by simp
      from loopPass_returns [OF this, of this er lo hi it] obtain cur new g where
        cur: "objectiveFunction this (?W it) er cov = Inr cur" and
        g: "calculateGradients this (?W it) er cov = Inr g" and
        pass: "loopPass this er cov lo hi it (?W it) =
                 Inr (cur, updateWeights lo hi it (?W it) g,
                      js_lt (js_abs (js_sub new cur)) (tolerance this))"
        by blast
      have next_w: "updateWeights lo hi it (?W it) g = ?W (Suc it)"
        by (simp add: g)
      let ?stop = "js_lt (js_abs (js_sub new cur)) (tolerance this)"
      have stops: "passStops this er cov lo hi w0 it = ?stop"
        by (simp add: passStops_def pass)
      show ?thesis
      proof (cases ?stop)
        case True
        with body \<open>js_lt (Fin (real it)) (maxIterations this)\<close>
        have "y = Inr (?W (Suc it), conv @ [js_neg cur])"
          by (simp add: ws pass next_w)
        with True stops cur \<open>js_lt (Fin (real it)) (maxIterations this)\<close> show ?thesis
          by (intro exI [of _ "Suc it"] exI [of _ "[js_neg cur]"]) (auto simp: le_less_Suc_eq)
      next
        case False
        with body \<open>js_lt (Fin (real it)) (maxIterations this)\<close>
        have "loop this er cov lo hi (Suc it) (?W (Suc it)) (conv @ [js_neg cur]) = Some y"
          by (simp add: ws pass next_w)
        from IH [OF this, unfolded loopPost_def, rule_format, of w0] len obtain m tr where
          m: "Suc it \<le> m" and y: "y = Inr (?W m, (conv @ [js_neg cur]) @ tr)" and
          tr: "length tr = m - Suc it" and
          each: "\<And>k. Suc it \<le> k \<Longrightarrow> k < m \<Longrightarrow>
             js_lt (Fin (real k)) (maxIterations this) \<and>
             (\<exists>obj. objectiveFunction this (?W k) er cov = Inr obj \<and>
                    tr ! (k - Suc it) = js_neg obj) \<and>
             (Suc k < m \<longrightarrow> \<not> passStops this er cov lo hi w0 k)" and
          fin: "\<not> js_lt (Fin (real m)) (maxIterations this) \<or>
                (Suc it < m \<and> passStops this er cov lo hi w0 (m - 1))"
          by blast
        have "\<And>k. it \<le> k \<Longrightarrow> k < m \<Longrightarrow>
             js_lt (Fin (real k)) (maxIterations this) \<and>
             (\<exists>obj. objectiveFunction this (?W k) er cov = Inr obj \<and>
                    (js_neg cur # tr) ! (k - it) = js_neg obj) \<and>
             (Suc k < m \<longrightarrow> \<not> passStops this er cov lo hi w0 k)"
        proof -
          fix k assume k: "it \<le> k" "k < m"
          show "js_lt (Fin (real k)) (maxIterations this) \<and>
             (\<exists>obj. objectiveFunction this (?W k) er cov = Inr obj \<and>
                    (js_neg cur # tr) ! (k - it) = js_neg obj) \<and>
             (Suc k < m \<longrightarrow> \<not> passStops this er cov lo hi w0 k)"
          proof (cases "k = it")
            case True
            with cur stops False \<open>js_lt (Fin (real it)) (maxIterations this)\<close>
            show ?thesis by simp
          next
            case False
            with k have k': "Suc it \<le> k" by simp
            then have "k - it = Suc (k - Suc it)" by simp
            with each [OF k' k(2)] show ?thesis by simp
          qed
        qed
        with m y tr fin show ?thesis
          by (intro exI [of _ m] exI [of _ "js_neg cur # tr"]) auto
      qed
    qed
  qed
qed

lemma quantumOptimization_result:
  assumes "quantumOptimization this assets constraints = Some y"
  shows "\<exists>r. y = Inr r \<and>
           finalResult this (map expectedReturn assets) (calculateCovarianceMatrix assets)
             (optimalWeights r) (convergenceData r) = Inr r \<and>
           length (convergenceData r) = iterations r \<and>
           optimalWeights r = passWeights this assets constraints (iterations r) \<and>
           (\<forall>k<iterations r.
              js_lt (Fin (real k)) (maxIterations this) \<and>
              (\<exists>obj. passObjective this assets constraints k = Inr obj \<and>
                     convergenceData r ! k = js_neg obj) \<and>
              (Suc k < iterations r \<longrightarrow> \<not> passBreaks this assets constraints k)) \<and>
           (\<not> js_lt (Fin (real (iterations r))) (maxIterations this) \<or>
            (0 < iterations r \<and> passBreaks this assets constraints (iterations r - 1)))"
proof -
  define cs where "cs = (case constraints of Some c \<Rightarrow> c | None \<Rightarrow> \<lparr>minWeight = None, maxWeight = None\<rparr>)"
  define er where "er = map expectedReturn assets"
  define cov where "cov = calculateCovarianceMatrix assets"
  define lo where "lo = or_default (minWeight cs) (Fin 0)"
  define hi where "hi = or_default (maxWeight cs) (Fin 1)"
  define w0 where "w0 = replicate (length assets) (js_div (Fin 1) (Fin (real (length assets))))"
  have len: "length w0 \<le> length cov" by (simp add: w0_def cov_def)
  have pw: "passWeights this assets constraints k = weightsAt this er cov lo hi w0 k" for k
    by (simp add: passWeights_def lowerBound_def upperBound_def cs_def er_def cov_def lo_def
          hi_def w0_def)
  have pb: "passBreaks this assets constraints k = passStops this er cov lo hi w0 k" for k
    by (simp add: passBreaks_def lowerBound_def upperBound_def cs_def er_def cov_def lo_def
          hi_def w0_def)
  have po: "passObjective this assets constraints k =
              objectiveFunction this (weightsAt this er cov lo hi w0 k) er cov" for k
    by (simp add: passObjective_def pw er_def cov_def)
  from assms obtain z where
    loop: "optimizationLoop this er cov lo hi 0 w0 [] = Some z" and
    y: "y = (case z of Inl e \<Rightarrow> Inl e
             | Inr (weights', convergence) \<Rightarrow> finalResult this er cov weights' convergence)"
    by (auto simp: quantumOptimization_def Let_def cs_def er_def cov_def lo_def hi_def w0_def
             split: option.splits sum.splits)
  from optimizationLoop_result [OF loop, unfolded loopPost_def, rule_format, of w0] len
  obtain m tr where
    z: "z = Inr (weightsAt this er cov lo hi w0 m, tr)" and tr: "length tr = m" and
    each: "\<And>k. k < m \<Longrightarrow>
             js_lt (Fin (real k)) (maxIterations this) \<and>
             (\<exists>obj. objectiveFunction this (weightsAt this er cov lo hi w0 k) er cov = Inr obj \<and>
                    tr ! k = js_neg obj) \<and>
             (Suc k < m \<longrightarrow> \<not> passStops this er cov lo hi w0 k)" and
    fin: "\<not> js_lt (Fin (real m)) (maxIterations this) \<or>
          (0 < m \<and> passStops this er cov lo hi w0 (m - 1))"
    by auto
  have "length (weightsAt this er cov lo hi w0 m) \<le> length cov" using len by simp
  from finalResult_returns [OF this, of this er tr] obtain r where
    r: "finalResult this er cov (weightsAt this er cov lo hi w0 m) tr = Inr r"
       "optimalWeights r = weightsAt this er cov lo hi w0 m" "convergenceData r = tr"
       "iterations r = length tr"
    by blast
  have "y = Inr r" by (simp add: y z r)
  with r tr each fin show ?thesis by (simp add: pw pb po er_def cov_def)
qed

lemma quantumOptimization_terminates:
  assumes "maxIterations this \<noteq> PInf"
  shows "\<exists>y. quantumOptimization this assets constraints = Some y"
proof -
  obtain z where "optimizationLoop this (map expectedReturn assets) (calculateCovarianceMatrix assets)
      (or_default (minWeight (case constraints of Some c \<Rightarrow> c | None \<Rightarrow> \<lparr>minWeight = None, maxWeight = None\<rparr>)) (Fin 0))
      (or_default (maxWeight (case constraints of Some c \<Rightarrow> c | None \<Rightarrow> \<lparr>minWeight = None, maxWeight = None\<rparr>)) (Fin 1))
      0 (replicate (length assets) (js_div (Fin 1) (Fin (real (length assets))))) [] = Some z"
    using optimizationLoop_terminates [OF assms] by blast
  then show ?thesis
    by (simp add: quantumOptimization_def Let_def split: sum.splits prod.splits)
qed

subsection \<open>A run that converges in its first pass\<close>

lemma sqrt_capped: "sqrt (361 / 40000) = 19 / 200"
  by (simp add: real_sqrt_divide)

lemma upt_2: "[0..<Suc (Suc 0)] = [0, Suc 0]"
  by (simp add: upt_rec)

lemma cov_capped:
  "calculateCovarianceMatrix cappedAssets = [[Fin (9/400), Fin (9/2500)], [Fin (9/2500), Fin (4/625)]]"
  by (simp add: calculateCovarianceMatrix_def cappedAssets_def Let_def upt_2 power2_eq_square)

lemma objective_capped:
  "objectiveFunction (constructor None None) [Fin (1/2), Fin (1/2)] [Fin (3/25), Fin (2/25)]
     [[Fin (9/400), Fin (9/2500)], [Fin (9/2500), Fin (4/625)]] = Inr (Fin (- (16/19)))"
  by (simp add: objectiveFunction_def portfolioReturn_def portfolioVariance_def cov_entry_def
        js_index_def js_sub_def constructor_def Let_def upt_2 sqrt_capped)

lemma gradients_capped:
  "calculateGradients (constructor None None) [Fin (1/2), Fin (1/2)] [Fin (3/25), Fin (2/25)]
     [[Fin (9/400), Fin (9/2500)], [Fin (9/2500), Fin (4/625)]] =
   Inr [Fin (- (312/6859)), Fin (- (2576/6859))]"
  by (simp add: calculateGradients_def varianceGradient_def portfolioReturn_def
        portfolioVariance_def cov_entry_def js_index_def js_sub_def constructor_def Let_def upt_2
        sqrt_capped power2_eq_square)

lemma learningRate_0: "learningRate 0 = Fin (1/100)"
  by (simp add: learningRate_def)

lemma update_capped:
  "updateWeights (Fin (1/10)) (Fin (3/10)) 0 [Fin (1/2), Fin (1/2)]
     [Fin (- (312/6859)), Fin (- (2576/6859))] = [Fin (1/2), Fin (1/2)]"
  by (simp add: updateWeights_def learningRate_0 js_index_def js_sub_def js_max_def js_min_def
        Let_def upt_2)

lemma loopPass_capped:
  "loopPass (constructor None None) [Fin (3/25), Fin (2/25)]
     [[Fin (9/400), Fin (9/2500)], [Fin (9/2500), Fin (4/625)]] (Fin (1/10)) (Fin (3/10)) 0
     [Fin (1/2), Fin (1/2)] = Inr (Fin (- (16/19)), [Fin (1/2), Fin (1/2)], True)"
  by (simp add: loopPass_def objective_capped gradients_capped update_capped js_sub_def)
     (simp add: constructor_def)

lemma run_capped:
  "optimizePortfolio (constructor None None) cappedAssets cappedConstraints =
     Some (Inr \<lparr>optimalWeights = [Fin (1/2), Fin (1/2)],
                result_expectedReturn = Fin (1/10),
                result_volatility = Fin (19/200),
                result_sharpeRatio = Fin (16/19),
                convergenceData = [Fin (16/19)],
                iterations = 1\<rparr>)"
proof -
  have lt: "js_lt (Fin (real (0::nat))) (maxIterations (constructor None None))"
    by (simp add: constructor_def)
  have "optimizationLoop (constructor None None) [Fin (3/25), Fin (2/25)]
     [[Fin (9/400), Fin (9/2500)], [Fin (9/2500), Fin (4/625)]] (Fin (1/10)) (Fin (3/10)) 0
     [Fin (1/2), Fin (1/2)] [] = Some (Inr ([Fin (1/2), Fin (1/2)], [Fin (16/19)]))"
    using optimizationLoop_break [OF lt loopPass_capped, of "[]"] by simp
  moreover have "finalResult (constructor None None) [Fin (3/25), Fin (2/25)]
     [[Fin (9/400), Fin (9/2500)], [Fin (9/2500), Fin (4/625)]] [Fin (1/2), Fin (1/2)] [Fin (16/19)]
     = Inr \<lparr>optimalWeights = [Fin (1/2), Fin (1/2)],
                result_expectedReturn = Fin (1/10),
                result_volatility = Fin (19/200),
                result_sharpeRatio = Fin (16/19),
                convergenceData = [Fin (16/19)],
                iterations = 1\<rparr>"
    by (simp add: finalResult_def portfolioReturn_def portfolioVariance_def cov_entry_def
        js_index_def js_sub_def constructor_def Let_def upt_2 sqrt_capped)
  ultimately show ?thesis
    by (simp add: optimizePortfolio_def quantumOptimization_def cov_capped Let_def
          cappedConstraints_def or_default_def)
       (simp add: cappedAssets_def)
qed

subsection \<open>The entry point\<close>

text \<open>
  Claim C3. With fewer than two assets \<open>optimizePortfolio\<close> throws the error of line 462
  before anything else is computed; it throws exactly in that case; and with two or more
  assets and a \<open>maxIterations\<close> other than \<open>Infinity\<close> it returns a result.
\<close>

theorem optimizePortfolio_InvalidInput:
  "(length assets < 2 \<longrightarrow> optimizePortfolio this assets constraints = Some (Inl InvalidInput)) \<and>
   ((\<exists>e. optimizePortfolio this assets constraints = Some (Inl e)) = (length assets < 2)) \<and>
   (2 \<le> length assets \<and> maxIterations this \<noteq> PInf \<longrightarrow>
      (\<exists>r. optimizePortfolio this assets constraints = Some (Inr r)))"
proof (cases "length assets < 2")
  case True
  then show ?thesis by (simp add: optimizePortfolio_def)
next
  case False
  then have eq: "optimizePortfolio this assets constraints = quantumOptimization this assets constraints"
    by (simp add: optimizePortfolio_def)
  have no_error: "quantumOptimization this assets constraints \<noteq> Some (Inl e)" for e
    using quantumOptimization_result [of this assets constraints "Inl e"] by auto
  have "\<exists>r. quantumOptimization this assets constraints = Some (Inr r)"
    if "maxIterations this \<noteq> PInf"
    using quantumOptimization_terminates [OF that, of assets constraints]
      quantumOptimization_result [of this assets constraints] by force
  with False eq no_error show ?thesis by simp
qed

theorem optimizePortfolio_InvalidInput_witness:
  "optimizePortfolio (constructor None None) [hd cappedAssets] None = Some (Inl InvalidInput) \<and>
   optimizePortfolio (constructor None None) [] None = Some (Inl InvalidInput) \<and>
   (\<exists>r. optimizePortfolio (constructor None None) cappedAssets None = Some (Inr r))"
  using optimizePortfolio_InvalidInput [of "[hd cappedAssets]" "constructor None None" None]
    optimizePortfolio_InvalidInput [of "[]" "constructor None None" None]
    optimizePortfolio_InvalidInput [of cappedAssets "constructor None None" None]
  by (simp add: cappedAssets_def constructor_def)

text \<open>
  Claim C4. In every result returned by \<open>optimizePortfolio\<close>: \<open>convergenceData\<close> has
  \<open>iterations\<close> entries; every executed pass has an index below \<open>maxIterations\<close>, so
  \<open>iterations \<le> maxIterations\<close> when \<open>maxIterations\<close> is a whole number; entry \<open>k\<close> is
  the negated objective (the Sharpe ratio) of the weights at the start of pass \<open>k\<close>; and
  when pass \<open>k\<close> is the first to break, \<open>iterations = k + 1\<close>: its value is recorded.
\<close>

theorem convergenceData_trace:
  assumes "optimizePortfolio this assets constraints = Some (Inr r)"
  shows "length (convergenceData r) = iterations r \<and>
         (\<forall>k<iterations r. js_lt (Fin (real k)) (maxIterations this)) \<and>
         (\<forall>M. maxIterations this = Fin (real M) \<longrightarrow> iterations r \<le> M) \<and>
         (\<forall>k<iterations r. \<exists>obj. passObjective this assets constraints k = Inr obj \<and>
                                convergenceData r ! k = js_neg obj) \<and>
         (\<forall>k. js_lt (Fin (real k)) (maxIterations this) \<and>
              passBreaks this assets constraints k \<and>
              (\<forall>j<k. \<not> passBreaks this assets constraints j) \<longrightarrow> iterations r = Suc k)"
proof -
  from assms have "quantumOptimization this assets constraints = Some (Inr r)"
    by (simp add: optimizePortfolio_def split: if_splits)
  from quantumOptimization_result [OF this] have
    len: "length (convergenceData r) = iterations r" and
    each: "\<And>k. k < iterations r \<Longrightarrow>
              js_lt (Fin (real k)) (maxIterations this) \<and>
              (\<exists>obj. passObjective this assets constraints k = Inr obj \<and>
                     convergenceData r ! k = js_neg obj) \<and>
              (Suc k < iterations r \<longrightarrow> \<not> passBreaks this assets constraints k)" and
    fin: "\<not> js_lt (Fin (real (iterations r))) (maxIterations this) \<or>
          (0 < iterations r \<and> passBreaks this assets constraints (iterations r - 1))"
    by auto
  have bound: "iterations r \<le> M" if M: "maxIterations this = Fin (real M)" for M
  proof (rule ccontr)
    assume "\<not> iterations r \<le> M"
    then have "M < iterations r" by simp
    from each [OF this] show False by (simp add: M)
  qed
  have brk: "iterations r = Suc k"
    if k: "js_lt (Fin (real k)) (maxIterations this)" "passBreaks this assets constraints k"
      "\<forall>j<k. \<not> passBreaks this assets constraints j" for k
  proof -
    have upper: "iterations r \<le> Suc k"
    proof (rule ccontr)
      assume "\<not> iterations r \<le> Suc k"
      then have "k < iterations r" "Suc k < iterations r" by simp_all
      with each [of k] k(2) show False by simp
    qed
    from fin show ?thesis
    proof
      assume "\<not> js_lt (Fin (real (iterations r))) (maxIterations this)"
      with js_lt_index_mono [OF _ k(1), of "iterations r"] have "\<not> iterations r \<le> k" by blast
      with upper show ?thesis by simp
    next
      assume last: "0 < iterations r \<and> passBreaks this assets constraints (iterations r - 1)"
      with k(3) have "\<not> iterations r - 1 < k" by blast
      with upper last show ?thesis by linarith
    qed
  qed
  from len each bound brk show ?thesis by blast
qed

theorem convergenceData_trace_witness:
  "optimizePortfolio (constructor None None) cappedAssets cappedConstraints =
     Some (Inr \<lparr>optimalWeights = [Fin (1/2), Fin (1/2)],
                result_expectedReturn = Fin (1/10),
                result_volatility = Fin (19/200),
                result_sharpeRatio = Fin (16/19),
                convergenceData = [Fin (16/19)],
                iterations = 1\<rparr>) \<and>
   length [Fin (16/19)] = (1::nat) \<and> (1::nat) \<le> 100 \<and>
   passObjective (constructor None None) cappedAssets cappedConstraints 0 = Inr (Fin (- (16/19)))"
  using convergenceData_trace [OF run_capped] run_capped
  by (auto simp: constructor_def js_neg_eq_Fin_iff)

text \<open>
  Claim C8. \<open>optimizePortfolio\<close> is a function of the optimizer's fields, the constraints
  and the expected returns and volatilities of the assets: two asset lists that agree
  element-wise on \<open>expectedReturn\<close> and \<open>volatility\<close> give the same outcome, whatever
  their symbols, names and prices.
\<close>

theorem optimizePortfolio_ignores_other_fields:
  assumes "map expectedReturn assets = map expectedReturn assets'"
      and "map volatility assets = map volatility assets'"
  shows "optimizePortfolio this assets constraints = optimizePortfolio this assets' constraints"
proof -
  from assms(1) have "length assets = length assets'" by (rule map_eq_imp_length_eq)
  with assms calculateCovarianceMatrix_cong [OF assms(2)] show ?thesis
    by (simp add: optimizePortfolio_def quantumOptimization_def)
qed

theorem optimizePortfolio_ignores_other_fields_witness:
  "map expectedReturn cappedAssets = map expectedReturn relabelledAssets \<and>
   map volatility cappedAssets = map volatility relabelledAssets \<and>
   cappedAssets \<noteq> relabelledAssets \<and>
   optimizePortfolio (constructor None None) cappedAssets cappedConstraints =
   optimizePortfolio (constructor None None) relabelledAssets cappedConstraints"
  using optimizePortfolio_ignores_other_fields [of cappedAssets relabelledAssets
      "constructor None None" cappedConstraints]
  by (simp add: cappedAssets_def relabelledAssets_def)


subsection \<open>Finite numbers: the code computes the formulas of the specification\<close>

lemma foldl_js_add_Fin:
  assumes "\<And>i. i < n \<Longrightarrow> t i = Fin (f i)"
  shows "foldl (\<lambda>acc i. js_add acc (t i)) (Fin a) [0..<n] = Fin (a + (\<Sum>i<n. f i))"
  using assms by (induction n) simp_all

lemma foldE_Fin:
  assumes "\<And>a i. i < n \<Longrightarrow> f (Fin a) i = Inr (Fin (a + g i))"
  shows "foldE f (Fin a) [0..<n] = Inr (Fin (a + (\<Sum>i<n. g i)))"
  using assms by (induction n) (simp_all add: foldE_append add.assoc)

lemma portfolioReturn_Fin:
  assumes "length r = length w"
  shows "portfolioReturn (map Fin w) (map Fin r) = Fin (spec_return w r)"
  unfolding portfolioReturn_def spec_return_def
  using foldl_js_add_Fin [of "length w" "\<lambda>i. js_mul (map Fin w ! i) (js_index (map Fin r) i)"
      "\<lambda>i. w ! i * r ! i" 0] assms
  by (simp add: js_index_def)

lemma cov_entry_Fin:
  assumes "i < length c" "j < length (c ! i)"
  shows "cov_entry (map (map Fin) c) i j = Inr (Fin (c ! i ! j))"
  using assms by (simp add: cov_entry_def js_index_def)

lemma portfolioVariance_Fin:
  assumes "length c = length w" "\<forall>row\<in>set c. length row = length w"
  shows "portfolioVariance (map Fin w) (map (map Fin) c) = Inr (Fin (spec_variance w c))"
proof -
  have entry: "cov_entry (map (map Fin) c) i j = Inr (Fin (c ! i ! j))"
    if "i < length w" "j < length w" for i j
    using that assms by (intro cov_entry_Fin) simp_all
  have inner: "foldE (\<lambda>acc j.
           case cov_entry (map (map Fin) c) i j of
             Inl e \<Rightarrow> Inl e
           | Inr x \<Rightarrow> Inr (js_add acc (js_mul (js_mul (map Fin w ! i) (map Fin w ! j)) x)))
          (Fin a) [0..<length w] = Inr (Fin (a + (\<Sum>j<length w. w ! i * w ! j * c ! i ! j)))"
    if "i < length w" for i a
    by (rule foldE_Fin) (simp add: entry that)
  have "foldE (\<lambda>acc i.
        foldE (\<lambda>acc j.
           case cov_entry (map (map Fin) c) i j of
             Inl e \<Rightarrow> Inl e
           | Inr x \<Rightarrow> Inr (js_add acc (js_mul (js_mul (map Fin w ! i) (map Fin w ! j)) x)))
          acc [0..<length w])
       (Fin 0) [0..<length w] =
      Inr (Fin (0 + (\<Sum>i<length w. \<Sum>j<length w. w ! i * w ! j * c ! i ! j)))"
    by (rule foldE_Fin) (simp add: inner)
  then show ?thesis by (simp add: portfolioVariance_def spec_variance_def)
qed

lemma varianceGradient_Fin:
  assumes "length c = length w" "\<forall>row\<in>set c. length row = length w" "i < length w"
  shows "varianceGradient (map Fin w) (map (map Fin) c) i =
           Inr (Fin (\<Sum>j<length w. 2 * w ! j * c ! i ! j))"
proof -
  have entry: "cov_entry (map (map Fin) c) i j = Inr (Fin (c ! i ! j))" if "j < length w" for j
    using that assms by (intro cov_entry_Fin) simp_all
  have "foldE (\<lambda>acc j.
        case cov_entry (map (map Fin) c) i j of
          Inl e \<Rightarrow> Inl e
        | Inr x \<Rightarrow> Inr (js_add acc (js_mul (js_mul (Fin 2) (map Fin w ! j)) x)))
       (Fin 0) [0..<length w] = Inr (Fin (0 + (\<Sum>j<length w. 2 * w ! j * c ! i ! j)))"
    by (rule foldE_Fin) (simp add: entry)
  then show ?thesis by (simp add: varianceGradient_def)
qed

lemma objectiveFunction_Fin:
  assumes "length r = length w" "length c = length w" "\<forall>row\<in>set c. length row = length w"
    and "riskFreeRate this = Fin rf" and "0 < spec_variance w c"
  shows "objectiveFunction this (map Fin w) (map Fin r) (map (map Fin) c) =
           Inr (Fin (- spec_sharpe rf w r c))"
  using assms
  by (simp add: objectiveFunction_def portfolioReturn_Fin portfolioVariance_Fin js_sub_def
        spec_sharpe_def spec_volatility_def Let_def)

lemma calculateGradients_Fin:
  assumes "length r = length w" "length c = length w" "\<forall>row\<in>set c. length row = length w"
    and "riskFreeRate this = Fin rf" and "0 < spec_variance w c"
  shows "calculateGradients this (map Fin w) (map Fin r) (map (map Fin) c) =
           Inr (map (\<lambda>i. Fin (spec_gradient rf w r c i)) [0..<length w])"
proof -
  have pos: "0 < sqrt (spec_variance w c)" using assms(5) by simp
  have "mapE (\<lambda>i.
             let returnGradient = js_index (map Fin r) i in
             case varianceGradient (map Fin w) (map (map Fin) c) i of
               Inl e \<Rightarrow> Inl e
             | Inr vGradient \<Rightarrow>
                 let volatilityGradient = js_div vGradient (js_mul (Fin 2) (Fin (sqrt (spec_variance w c))));
                     numerator = js_sub (js_mul returnGradient (Fin (sqrt (spec_variance w c))))
                                   (js_mul (js_sub (Fin (spec_return w r)) (riskFreeRate this)) volatilityGradient);
                     denominator = js_pow2 (Fin (sqrt (spec_variance w c)))
                 in Inr (js_div (js_neg numerator) denominator))
            [0..<length w] = Inr (map (\<lambda>i. Fin (spec_gradient rf w r c i)) [0..<length w])"
  proof (rule mapE_total)
    fix i assume "i \<in> set [0..<length w]"
    then have i: "i < length w" by simp
    have s: "(\<Sum>j<length w. 2 * w ! j * c ! i ! j) = 2 * (\<Sum>j<length w. w ! j * c ! i ! j)"
      by (simp add: sum_distrib_left mult.assoc)
    from i assms pos show "(let returnGradient = js_index (map Fin r) i in
             case varianceGradient (map Fin w) (map (map Fin) c) i of
               Inl e \<Rightarrow> Inl e
             | Inr vGradient \<Rightarrow>
                 let volatilityGradient = js_div vGradient (js_mul (Fin 2) (Fin (sqrt (spec_variance w c))));
                     numerator = js_sub (js_mul returnGradient (Fin (sqrt (spec_variance w c))))
                                   (js_mul (js_sub (Fin (spec_return w r)) (riskFreeRate this)) volatilityGradient);
                     denominator = js_pow2 (Fin (sqrt (spec_variance w c)))
                 in Inr (js_div (js_neg numerator) denominator)) = Inr (Fin (spec_gradient rf w r c i))"
      by (simp add: varianceGradient_Fin js_index_def js_sub_def Let_def spec_gradient_def
            spec_dvolatility_def spec_volatility_def s)
         (simp add: minus_divide_left)
  qed
  with assms show ?thesis
    by (simp add: calculateGradients_def portfolioReturn_Fin portfolioVariance_Fin Let_def)
qed

text \<open>
  Claim C6. For real weights, returns and covariances of matching sizes, a finite
  \<open>riskFreeRate\<close> and a portfolio variance above zero (the volatility is a nonzero real),
  \<open>objectiveFunction\<close> returns the negated Sharpe ratio \<open>-(R - riskFreeRate) / \<sigma>\<close> and
  component \<open>i\<close> of \<open>calculateGradients\<close> is
  \<open>-(r\<^sub>i * \<sigma> - (R - riskFreeRate) * d\<sigma>\<^sub>i) / \<sigma>\<^sup>2\<close> with
  \<open>d\<sigma>\<^sub>i = (2 * (\<Sum>j. w\<^sub>j * c\<^sub>i\<^sub>j)) / (2 * \<sigma>)\<close>.
\<close>

theorem objective_and_gradient:
  assumes "length r = length w" "length c = length w" "\<forall>row\<in>set c. length row = length w"
    and "riskFreeRate this = Fin rf" and "0 < spec_variance w c"
  shows "objectiveFunction this (map Fin w) (map Fin r) (map (map Fin) c) =
           Inr (Fin (- spec_sharpe rf w r c)) \<and>
         calculateGradients this (map Fin w) (map Fin r) (map (map Fin) c) =
           Inr (map (\<lambda>i. Fin (spec_gradient rf w r c i)) [0..<length w])"
  using objectiveFunction_Fin [OF assms] calculateGradients_Fin [OF assms] by simp

theorem objective_and_gradient_witness:
  "0 < spec_variance [1/2, 1/2] [[9/400, 9/2500], [9/2500, 4/625]] \<and>
   objectiveFunction (constructor None None) [Fin (1/2), Fin (1/2)] [Fin (3/25), Fin (2/25)]
     [[Fin (9/400), Fin (9/2500)], [Fin (9/2500), Fin (4/625)]] = Inr (Fin (- (16/19))) \<and>
   calculateGradients (constructor None None) [Fin (1/2), Fin (1/2)] [Fin (3/25), Fin (2/25)]
     [[Fin (9/400), Fin (9/2500)], [Fin (9/2500), Fin (4/625)]] =
     Inr [Fin (- (312/6859)), Fin (- (2576/6859))]"
proof -
  have v: "spec_variance [1/2, 1/2] [[9/400, 9/2500], [9/2500, 4/625]] = 361/40000"
    by (simp add: spec_variance_def)
  have r: "spec_return [1/2, 1/2] [3/25, 2/25] = 1/10"
    by (simp add: spec_return_def)
  have rf: "riskFreeRate (constructor None None) = Fin (1/50)"
    by (simp add: constructor_def)
  show ?thesis
    using objective_and_gradient [of "[3/25, 2/25]" "[1/2, 1/2]"
        "[[9/400, 9/2500], [9/2500, 4/625]]" "constructor None None" "1/50"]
    by (simp add: v r rf spec_sharpe_def spec_gradient_def spec_dvolatility_def
          spec_volatility_def sqrt_capped upt_2 power2_eq_square)
qed

lemma learningRate_Fin: "learningRate iteration = Fin (spec_learningRate iteration)"
  by (simp add: learningRate_def spec_learningRate_def)

lemma foldl_js_add_map_Fin: "foldl js_add (Fin a) (map Fin xs) = Fin (a + sum_list xs)"
  by (induction xs arbitrary: a) (simp_all add: add.assoc)

lemma clip_Fin: "js_max (Fin lo) (js_min (Fin hi) (Fin x)) = Fin (spec_clip x lo hi)"
  by (simp add: js_max_def js_min_def spec_clip_def max_def min_def)

lemma updateWeights_Fin:
  assumes "length g = length w" "sum_list (spec_candidates lo hi iteration w g) \<noteq> 0"
  shows "updateWeights (Fin lo) (Fin hi) iteration (map Fin w) (map Fin g) =
           map Fin (spec_update lo hi iteration w g)"
proof -
  have cand: "map (\<lambda>i. let gradient = js_index (map Fin g) i;
                         update = js_sub (map Fin w ! i) (js_mul (learningRate iteration) gradient)
                     in js_max (Fin lo) (js_min (Fin hi) update))
              [0..<length (map Fin w)] = map Fin (spec_candidates lo hi iteration w g)"
    using assms(1)
    by (simp add: spec_candidates_def js_index_def js_sub_def learningRate_Fin clip_Fin Let_def)
  show ?thesis
    unfolding updateWeights_def cand
    using assms(2) by (simp add: Let_def foldl_js_add_map_Fin spec_update_def comp_def)
qed



subsection \<open>The metrics calculator\<close>

text \<open>
  Claim C9. \<open>calculatePortfolioMetrics\<close> reads \<open>riskFreeRate\<close> and the returns and
  volatilities of the assets and changes nothing, so calls that agree on these and on the
  weights give the same triple. It returns a triple for every weight vector that has at
  most one entry per asset, whatever the values of the entries: no sum and no bound is
  required. (A vector with more entries than assets reads a missing row of the covariance
  matrix, which throws a \<open>TypeError\<close>.)
\<close>

theorem calculatePortfolioMetrics_pure:
  "(riskFreeRate this = riskFreeRate this' \<and>
    map expectedReturn assets = map expectedReturn assets' \<and>
    map volatility assets = map volatility assets' \<longrightarrow>
    calculatePortfolioMetrics this assets weights = calculatePortfolioMetrics this' assets' weights) \<and>
   ((\<exists>m. calculatePortfolioMetrics this assets weights = Inr m) = (length weights \<le> length assets))"
proof -
  have "calculatePortfolioMetrics this assets weights = calculatePortfolioMetrics this' assets' weights"
    if "riskFreeRate this = riskFreeRate this'"
      "map expectedReturn assets = map expectedReturn assets'"
      "map volatility assets = map volatility assets'"
    using that calculateCovarianceMatrix_cong [OF that(3)]
    by (simp add: calculatePortfolioMetrics_def Let_def split: sum.splits)
  moreover have "\<exists>m. calculatePortfolioMetrics this assets weights = Inr m"
    if "length weights \<le> length assets"
  proof -
    from that have "length weights \<le> length (calculateCovarianceMatrix assets)" by simp
    from portfolioVariance_returns [OF this] show ?thesis
      by (auto simp: calculatePortfolioMetrics_def Let_def)
  qed
  moreover have "calculatePortfolioMetrics this assets weights = Inl TypeError"
    if "\<not> length weights \<le> length assets"
  proof -
    from that have "length (calculateCovarianceMatrix assets) < length weights" by simp
    from portfolioVariance_throws [OF this] show ?thesis
      by (simp add: calculatePortfolioMetrics_def Let_def)
  qed
  ultimately show ?thesis by (intro conjI impI iffI) (blast, force, blast)
qed

theorem calculatePortfolioMetrics_pure_witness:
  "calculatePortfolioMetrics (constructor None None) cappedAssets [Fin 3, Fin (- 1)] =
   calculatePortfolioMetrics (constructor None (Some (Fin 7))) relabelledAssets [Fin 3, Fin (- 1)] \<and>
   (\<exists>m. calculatePortfolioMetrics (constructor None None) cappedAssets [Fin 3, Fin (- 1)] = Inr m)"
proof -
  have "riskFreeRate (constructor None None) = riskFreeRate (constructor None (Some (Fin 7)))"
    by (simp add: constructor_def)
  moreover have "map expectedReturn cappedAssets = map expectedReturn relabelledAssets"
    and "map volatility cappedAssets = map volatility relabelledAssets"
    by (simp_all add: cappedAssets_def relabelledAssets_def)
  moreover have "length [Fin 3, Fin (- 1)] \<le> length cappedAssets"
    by (simp add: cappedAssets_def)
  ultimately show ?thesis
    using calculatePortfolioMetrics_pure [of "constructor None None"
        "constructor None (Some (Fin 7))" cappedAssets relabelledAssets "[Fin 3, Fin (- 1)]"]
    by blast
qed

subsection \<open>Volatility zero\<close>




















subsection \<open>The returned weights\<close>


















subsection \<open>Bounds that can be met are exceeded as well\<close>

text \<open>
  The bounds \<open>[0.2, 0.6]\<close> admit weights that sum to one. With the two assets below the
  first pass clips the candidates to \<open>0.6\<close> and \<open>0.2\<close>, the division by \<open>0.8\<close> gives
  \<open>0.75\<close> and \<open>0.25\<close>, the second pass does the same, and the loop breaks there.
\<close>

lemma cov_spread: "calculateCovarianceMatrix spreadAssets = map (map Fin) spreadCovariance"
  by (simp add: calculateCovarianceMatrix_def spreadAssets_def spreadCovariance_def Let_def upt_2
        power2_eq_square)

lemma sqrt_spread: "sqrt (361 / 400000000) = 19 / 20000"
  by (simp add: real_sqrt_divide)

lemma objective_spread:
  "objectiveFunction (constructor None None) [Fin (1/2), Fin (1/2)] [Fin (3/10), Fin (1/100)]
     (map (map Fin) spreadCovariance) = Inr (Fin (- (2700/19)))"
  by (simp add: objectiveFunction_def portfolioReturn_def portfolioVariance_def cov_entry_def
        js_index_def js_sub_def constructor_def spreadCovariance_def Let_def upt_2 sqrt_spread)

lemma gradients_spread:
  "calculateGradients (constructor None None) [Fin (1/2), Fin (1/2)] [Fin (3/10), Fin (1/100)]
     (map (map Fin) spreadCovariance) = Inr [Fin (- (756600/6859)), Fin (467800/6859)]"
  by (simp add: calculateGradients_def varianceGradient_def portfolioReturn_def
        portfolioVariance_def cov_entry_def js_index_def js_sub_def constructor_def
        spreadCovariance_def Let_def upt_2 sqrt_spread power2_eq_square)

lemma update_spread:
  "updateWeights (Fin (1/5)) (Fin (3/5)) 0 [Fin (1/2), Fin (1/2)]
     [Fin (- (756600/6859)), Fin (467800/6859)] = [Fin (3/4), Fin (1/4)]"
  by (simp add: updateWeights_def learningRate_0 js_index_def js_sub_def js_max_def js_min_def
        Let_def upt_2)

lemma sum_upto_2: "(\<Sum>i<2. f i) = f 0 + (f (Suc 0) :: real)"
  by (simp add: numeral_2_eq_2)

lemma variance_spread: "spec_variance [3/4, 1/4] spreadCovariance = 461/320000000"
  by (simp add: spec_variance_def spreadCovariance_def sum_upto_2)

lemma return_spread: "spec_return [3/4, 1/4] [3/10, 1/100] = 91/400"
  by (simp add: spec_return_def sum_upto_2)

lemma volatility_spread:
  "0 < spec_volatility [3/4, 1/4] spreadCovariance"
  "spec_volatility [3/4, 1/4] spreadCovariance \<le> 13/10000"
  "spec_volatility [3/4, 1/4] spreadCovariance * spec_volatility [3/4, 1/4] spreadCovariance =
     461/320000000"
proof -
  show "0 < spec_volatility [3/4, 1/4] spreadCovariance"
    by (simp add: spec_volatility_def variance_spread)
  show "spec_volatility [3/4, 1/4] spreadCovariance \<le> 13/10000"
    unfolding spec_volatility_def variance_spread
    by (rule real_le_lsqrt) (simp_all add: power2_eq_square)
  show "spec_volatility [3/4, 1/4] spreadCovariance * spec_volatility [3/4, 1/4] spreadCovariance =
     461/320000000"
    by (simp add: spec_volatility_def variance_spread)
qed

lemma entries_spread:
  "spreadCovariance ! 0 ! 0 = 9/4000000" "spreadCovariance ! 0 ! Suc 0 = 9/25000000"
  "spreadCovariance ! Suc 0 ! 0 = 9/25000000" "spreadCovariance ! Suc 0 ! Suc 0 = 1/1562500"
  by (simp_all add: spreadCovariance_def)

lemma gradient_spread_first:
  "spec_gradient (1/50) [3/4, 1/4] [3/10, 1/100] spreadCovariance 0 \<le> 0"
proof -
  define s where "s = spec_volatility [3/4, 1/4] spreadCovariance"
  have s: "0 < s" "s * s = 461/320000000"
    using volatility_spread by (simp_all add: s_def)
  have "spec_gradient (1/50) [3/4, 1/4] [3/10, 1/100] spreadCovariance 0 =
          - ((3/10 * s - 83/400 * (711/400000000 / s)) / (s * s))"
    by (simp add: spec_gradient_def spec_dvolatility_def return_spread s_def [symmetric]
          entries_spread sum_upto_2 power2_eq_square)
  also have "3/10 * s - 83/400 * (711/400000000 / s) = (3/10 * (s * s) - 83/400 * (711/400000000)) / s"
    using s(1) by (simp add: field_simps)
  also have "\<dots> = (10137/160000000000) / s"
    by (simp add: s(2))
  finally show ?thesis using s(1) by (simp add: s(2))
qed

lemma gradient_spread_second:
  "6 \<le> spec_gradient (1/50) [3/4, 1/4] [3/10, 1/100] spreadCovariance (Suc 0)"
proof -
  define s where "s = spec_volatility [3/4, 1/4] spreadCovariance"
  have s: "0 < s" "s \<le> 13/10000" "s * s = 461/320000000"
    using volatility_spread by (simp_all add: s_def)
  have "spec_gradient (1/50) [3/4, 1/4] [3/10, 1/100] spreadCovariance (Suc 0) =
          - ((1/100 * s - 83/400 * (43/100000000 / s)) / (s * s))"
    by (simp add: spec_gradient_def spec_dvolatility_def return_spread s_def [symmetric]
          entries_spread sum_upto_2 power2_eq_square)
  also have "1/100 * s - 83/400 * (43/100000000 / s) = (1/100 * (s * s) - 83/400 * (43/100000000)) / s"
    using s(1) by (simp add: field_simps)
  also have "\<dots> = - (11971/160000000000) / s"
    by (simp add: s(3))
  finally have g: "spec_gradient (1/50) [3/4, 1/4] [3/10, 1/100] spreadCovariance (Suc 0) =
                     (11971/160000000000) / s / (461/320000000)"
    by (simp add: s(3))
  have "(11971/160000000000) / (13/10000) \<le> (11971/160000000000) / s"
    using s(1,2) by (intro divide_left_mono) simp_all
  then have "(11971/160000000000) / (13/10000) / (461/320000000) \<le>
             (11971/160000000000) / s / (461/320000000)"
    by (intro divide_right_mono) simp_all
  moreover have "(6::real) \<le> (11971/160000000000) / (13/10000) / (461/320000000)" by simp
  ultimately show ?thesis unfolding g by (rule order_trans [rotated])
qed

lemma shapes_spread:
  "length [3/10, 1/100 :: real] = length [3/4, 1/4 :: real]"
  "length spreadCovariance = length [3/4, 1/4 :: real]"
  "\<forall>row\<in>set spreadCovariance. length row = length [3/4, 1/4 :: real]"
  "riskFreeRate (constructor None None) = Fin (1/50)"
  "0 < spec_variance [3/4, 1/4] spreadCovariance"
  by (simp_all add: variance_spread) (simp_all add: spreadCovariance_def constructor_def)

lemma tolerance_default: "tolerance (constructor None None) = Fin (1/1000000)"
  by (simp add: constructor_def)

lemma objective_spread_second:
  "objectiveFunction (constructor None None) [Fin (3/4), Fin (1/4)] [Fin (3/10), Fin (1/100)]
     (map (map Fin) spreadCovariance) =
   Inr (Fin (- spec_sharpe (1/50) [3/4, 1/4] [3/10, 1/100] spreadCovariance))"
  using objectiveFunction_Fin [OF shapes_spread] by simp

lemma sharpe_spread_second: "150 \<le> spec_sharpe (1/50) [3/4, 1/4] [3/10, 1/100] spreadCovariance"
proof -
  define s where "s = spec_volatility [3/4, 1/4] spreadCovariance"
  have s: "0 < s" "s \<le> 13/10000" using volatility_spread by (simp_all add: s_def)
  have "(83/400) / (13/10000) \<le> (83/400) / s"
    using s by (intro divide_left_mono) simp_all
  moreover have "(150::real) \<le> (83/400) / (13/10000)" by simp
  ultimately have "150 \<le> (83/400) / s" by (rule order_trans [rotated])
  then show ?thesis by (simp add: spec_sharpe_def return_spread s_def)
qed

lemma gradients_spread_second:
  "calculateGradients (constructor None None) [Fin (3/4), Fin (1/4)] [Fin (3/10), Fin (1/100)]
     (map (map Fin) spreadCovariance) =
   Inr (map Fin [spec_gradient (1/50) [3/4, 1/4] [3/10, 1/100] spreadCovariance 0,
                 spec_gradient (1/50) [3/4, 1/4] [3/10, 1/100] spreadCovariance (Suc 0)])"
  using calculateGradients_Fin [OF shapes_spread] by (simp add: upt_2)

lemma candidates_spread_second:
  "spec_candidates (1/5) (3/5) (Suc 0) [3/4, 1/4]
     [spec_gradient (1/50) [3/4, 1/4] [3/10, 1/100] spreadCovariance 0,
      spec_gradient (1/50) [3/4, 1/4] [3/10, 1/100] spreadCovariance (Suc 0)] = [3/5, 1/5]"
proof -
  let ?g0 = "spec_gradient (1/50) [3/4, 1/4] [3/10, 1/100] spreadCovariance 0"
  let ?g1 = "spec_gradient (1/50) [3/4, 1/4] [3/10, 1/100] spreadCovariance (Suc 0)"
  let ?rate = "spec_learningRate (Suc 0)"
  have "1 + (- 1/50) \<le> exp (- 1/50 :: real)" by (rule exp_ge_add_one_self)
  then have rate: "49/5000 \<le> ?rate" "0 < ?rate"
    by (simp_all add: spec_learningRate_def)
  have "?rate * ?g0 \<le> 0"
    using rate(2) gradient_spread_first by (simp add: mult_le_0_iff)
  then have first: "spec_clip (3/4 - ?rate * ?g0) (1/5) (3/5) = 3/5"
    by (simp add: spec_clip_def)
  have "49/5000 * 6 \<le> ?rate * ?g1"
    using rate gradient_spread_second by (intro mult_mono) simp_all
  then have second: "spec_clip (1/4 - ?rate * ?g1) (1/5) (3/5) = 1/5"
    by (simp add: spec_clip_def)
  show ?thesis by (simp add: spec_candidates_def upt_2 first second)
qed

lemma update_spread_second:
  "updateWeights (Fin (1/5)) (Fin (3/5)) (Suc 0) [Fin (3/4), Fin (1/4)]
     (map Fin [spec_gradient (1/50) [3/4, 1/4] [3/10, 1/100] spreadCovariance 0,
               spec_gradient (1/50) [3/4, 1/4] [3/10, 1/100] spreadCovariance (Suc 0)]) =
   [Fin (3/4), Fin (1/4)]"
  using updateWeights_Fin [of "[spec_gradient (1/50) [3/4, 1/4] [3/10, 1/100] spreadCovariance 0,
      spec_gradient (1/50) [3/4, 1/4] [3/10, 1/100] spreadCovariance (Suc 0)]" "[3/4, 1/4]"
      "1/5" "3/5" "Suc 0"]
  by (simp add: candidates_spread_second spec_update_def)

lemma loopPass_spread_first:
  "loopPass (constructor None None) [Fin (3/10), Fin (1/100)] (map (map Fin) spreadCovariance)
     (Fin (1/5)) (Fin (3/5)) 0 [Fin (1/2), Fin (1/2)] =
   Inr (Fin (- (2700/19)), [Fin (3/4), Fin (1/4)], False)"
proof -
  have "\<not> \<bar>2700/19 - spec_sharpe (1/50) [3/4, 1/4] [3/10, 1/100] spreadCovariance\<bar> < 1/1000000"
    using sharpe_spread_second by simp
  then show ?thesis
    by (simp add: loopPass_def objective_spread gradients_spread update_spread
          objective_spread_second js_sub_def tolerance_default)
qed

lemma loopPass_spread_second:
  "loopPass (constructor None None) [Fin (3/10), Fin (1/100)] (map (map Fin) spreadCovariance)
     (Fin (1/5)) (Fin (3/5)) (Suc 0) [Fin (3/4), Fin (1/4)] =
   Inr (Fin (- spec_sharpe (1/50) [3/4, 1/4] [3/10, 1/100] spreadCovariance),
        [Fin (3/4), Fin (1/4)], True)"
  by (simp add: loopPass_def objective_spread_second gradients_spread_second
        update_spread_second [simplified] js_sub_def tolerance_default)

text \<open>
  The run with the default optimizer: two passes, and a first weight that exceeds
  \<open>maxWeight = 0.6\<close> by \<open>0.15\<close>.
\<close>

lemma run_spread:
  "\<exists>r. optimizePortfolio (constructor None None) spreadAssets spreadConstraints = Some (Inr r) \<and>
       optimalWeights r = [Fin (3/4), Fin (1/4)] \<and> iterations r = 2"
proof -
  let ?opt = "constructor None None"
  let ?er = "[Fin (3/10), Fin (1/100)]"
  let ?cov = "map (map Fin) spreadCovariance"
  have lt: "js_lt (Fin (real (0::nat))) (maxIterations ?opt)"
    "js_lt (Fin (real (Suc 0))) (maxIterations ?opt)"
    by (simp_all add: constructor_def)
  have loop: "optimizationLoop ?opt ?er ?cov (Fin (1/5)) (Fin (3/5)) 0 [Fin (1/2), Fin (1/2)] [] =
          Some (Inr ([Fin (3/4), Fin (1/4)],
                     [Fin (2700/19),
                      Fin (spec_sharpe (1/50) [3/4, 1/4] [3/10, 1/100] spreadCovariance)]))"
    using optimizationLoop_continue [OF lt(1) loopPass_spread_first, where conv = "[]"]
      optimizationLoop_break [OF lt(2) loopPass_spread_second, where conv = "[Fin (2700/19)]"]
    by simp
  have "length [Fin (3/4), Fin (1/4)] \<le> length ?cov" by (simp add: spreadCovariance_def)
  from finalResult_returns [OF this, of ?opt ?er
      "[Fin (2700/19), Fin (spec_sharpe (1/50) [3/4, 1/4] [3/10, 1/100] spreadCovariance)]"]
  obtain r where r: "finalResult ?opt ?er ?cov [Fin (3/4), Fin (1/4)]
      [Fin (2700/19), Fin (spec_sharpe (1/50) [3/4, 1/4] [3/10, 1/100] spreadCovariance)] = Inr r"
    "optimalWeights r = [Fin (3/4), Fin (1/4)]" "iterations r = 2"
    by auto
  have "optimizePortfolio ?opt spreadAssets spreadConstraints = Some (Inr r)"
    by (simp add: optimizePortfolio_def quantumOptimization_def cov_spread Let_def
          spreadConstraints_def or_default_def)
       (simp add: spreadAssets_def loop r(1))
  with r show ?thesis by blast
qed

end
